theory Spec2Isabelle
  imports Complex_Main "HOL-Library.Sublist" "HOL-Library.Multiset"
begin

section \<open>Values of the Python program\<close>

text \<open>
  The exporter (\<^verbatim>\<open>radosgw_exporter.py\<close>) is read as a Python 3 program: it wraps
  the views of its dictionaries in \<^verbatim>\<open>list(...)\<close> and decodes \<^verbatim>\<open>response.content\<close>
  before printing it, as Python 3 requires. It works on what
  \<^verbatim>\<open>response.json()\<close> returns: \<^verbatim>\<open>None\<close>, booleans, integers, strings, lists
  and dictionaries with string keys. An object is kept as the list of its items in
  insertion order; a parsed object has distinct keys, and \<open>map_of\<close> reads it.
  Python integers are unbounded, so they are \<open>int\<close>. Numbers with a fraction do not
  occur in the gateway's payloads (all its counters and sizes are integers) and are not
  part of this type.
\<close>

datatype json =
    JNull
  | JBool bool
  | JInt int
  | JStr string
  | JArr "json list"
  | JObj "(string \<times> json) list"

text \<open>
  The exceptions the modelled code can raise. \<open>KeyError k\<close> is a missing dictionary key,
  \<open>TypeError\<close> an operation on a value of the wrong type, \<open>UnboundLocalError v\<close> the read
  of a local variable that no branch has assigned, \<open>ValueError\<close> a body that is not
  JSON (when the \<^verbatim>\<open>requests\<close> library reports it outside its own exception
  hierarchy), \<open>UnicodeDecodeError\<close> a body that is not UTF-8.
\<close>

datatype pyerr =
    KeyError string
  | TypeError
  | UnboundLocalError string
  | ZeroDivisionError
  | OverflowError
  | ValueError
  | UnicodeDecodeError

text \<open>
  A number handed to a metric is either a value taken from the payload as it is, or the
  result of Python 3's true division \<^verbatim>\<open>/\<close>, which is always a \<^verbatim>\<open>float\<close>.
  \<open>PyFloat q\<close> is the \<^verbatim>\<open>float\<close> whose value is the rational \<open>q\<close>; every double is a
  rational number.
\<close>

datatype pyval =
    Obj json
  | PyFloat rat

subsection \<open>Python operators on these values\<close>

text \<open>\<^verbatim>\<open>if x:\<close> and \<^verbatim>\<open>not x\<close>: the truth value of an object.\<close>

fun truthy :: "json \<Rightarrow> bool" where
  "truthy JNull = False"
| "truthy (JBool b) = b"
| "truthy (JInt i) = (i \<noteq> 0)"
| "truthy (JStr s) = (s \<noteq> [])"
| "truthy (JArr xs) = (xs \<noteq> [])"
| "truthy (JObj kvs) = (kvs \<noteq> [])"

text \<open>\<^verbatim>\<open>x['k']\<close> with a string key: only a dictionary can be subscripted by a string.\<close>

fun getitem :: "json \<Rightarrow> string \<Rightarrow> pyerr + json" where
  "getitem (JObj kvs) k = (case map_of kvs k of None \<Rightarrow> Inl (KeyError k) | Some v \<Rightarrow> Inr v)"
| "getitem _ k = Inl TypeError"

text \<open>
  \<^verbatim>\<open>'k' in x\<close>: a key of a dictionary, a substring of a string, an element of a list;
  the other values are not containers.
\<close>

fun contains :: "string \<Rightarrow> json \<Rightarrow> pyerr + bool" where
  "contains k (JObj kvs) = Inr (k \<in> set (map fst kvs))"
| "contains k (JStr s) = Inr (sublist k s)"
| "contains k (JArr xs) = Inr (JStr k \<in> set xs)"
| "contains k _ = Inl TypeError"

text \<open>
  \<^verbatim>\<open>for x in v\<close>: the elements of a list, the keys of a dictionary, the characters of a
  string.
\<close>

fun py_iter :: "json \<Rightarrow> pyerr + json list" where
  "py_iter (JArr xs) = Inr xs"
| "py_iter (JObj kvs) = Inr (map (\<lambda>kv. JStr (fst kv)) kvs)"
| "py_iter (JStr s) = Inr (map (\<lambda>c. JStr [c]) s)"
| "py_iter _ = Inl TypeError"

text \<open>\<^verbatim>\<open>type(x) is dict\<close>.\<close>

fun is_dict :: "json \<Rightarrow> bool" where
  "is_dict (JObj kvs) = True"
| "is_dict _ = False"

text \<open>The integer a boolean or an integer stands for in arithmetic.\<close>

fun as_int :: "json \<Rightarrow> int option" where
  "as_int (JInt i) = Some i"
| "as_int (JBool b) = Some (if b then 1 else 0)"
| "as_int _ = None"

text \<open>
  \<^verbatim>\<open>x * n\<close> for an integer literal \<open>n\<close>: the product of numbers, the repetition of a
  string or a list.
\<close>

fun py_mul :: "json \<Rightarrow> int \<Rightarrow> pyerr + json" where
  "py_mul (JInt i) n = Inr (JInt (i * n))"
| "py_mul (JBool b) n = Inr (JInt ((if b then 1 else 0) * n))"
| "py_mul (JStr s) n = Inr (JStr (concat (replicate (nat n) s)))"
| "py_mul (JArr xs) n = Inr (JArr (concat (replicate (nat n) xs)))"
| "py_mul _ n = Inl TypeError"

text \<open>
  \<^verbatim>\<open>a + b\<close>, as \<^verbatim>\<open>Counter.update\<close> applies it: the sum of numbers, the
  concatenation of two strings or of two lists.
\<close>

fun py_add :: "json \<Rightarrow> json \<Rightarrow> pyerr + json" where
  "py_add (JStr s) (JStr t) = Inr (JStr (s @ t))"
| "py_add (JArr xs) (JArr ys) = Inr (JArr (xs @ ys))"
| "py_add a b =
     (case (as_int a, as_int b) of
        (Some i, Some j) \<Rightarrow> Inr (JInt (i + j))
      | _ \<Rightarrow> Inl TypeError)"

text \<open>\<^verbatim>\<open>x > 0\<close>: Python 3 orders numbers only against numbers.\<close>

fun py_gt0 :: "json \<Rightarrow> pyerr + bool" where
  "py_gt0 x = (case as_int x of Some i \<Rightarrow> Inr (0 < i) | None \<Rightarrow> Inl TypeError)"

text \<open>
  \<^verbatim>\<open>a / b\<close>: true division. Two integers give a \<^verbatim>\<open>float\<close>: the double nearest to
  their quotient, ties going to the even mantissa.

  \<open>bits n\<close> is the number of binary digits of \<open>n\<close>, and \<open>floor_log2 n d\<close> the integer
  part of the binary logarithm of \<open>n / d\<close>. A double has a mantissa of 53 bits, so the
  doubles around \<open>n / d\<close> are the multiples of 2 to the power \<open>ulp_exponent n d\<close>, which
  is never below \<open>-1074\<close>. \<open>round_half_even_div n d\<close> is \<open>n / d\<close> rounded to the nearest
  natural number, a tie going to the even one.
\<close>

fun bits :: "nat \<Rightarrow> nat" where
  "bits 0 = 0"
| "bits (Suc n) = Suc (bits (Suc n div 2))"

definition floor_log2 :: "nat \<Rightarrow> nat \<Rightarrow> int" where
  "floor_log2 n d =
     (let g = int (bits n) - int (bits d)
      in if d * 2 ^ nat g \<le> n * 2 ^ nat (- g) then g else g - 1)"

definition ulp_exponent :: "nat \<Rightarrow> nat \<Rightarrow> int" where
  "ulp_exponent n d = max (floor_log2 n d - 52) (- 1074)"

definition round_half_even_div :: "nat \<Rightarrow> nat \<Rightarrow> nat" where
  "round_half_even_div n d =
     (let f = n div d; r = n mod d
      in if 2 * r < d then f else if d < 2 * r then f + 1 else if even f then f else f + 1)"

definition nearest_double :: "int \<Rightarrow> int \<Rightarrow> rat" where
  "nearest_double i j =
     (if i = 0 then 0
      else
        (let n = nat \<bar>i\<bar>; d = nat \<bar>j\<bar>; e = ulp_exponent n d;
             m = round_half_even_div (n * 2 ^ nat (- e)) (d * 2 ^ nat e)
         in of_int (sgn i * sgn j * int m) * 2 powi e))"

text \<open>
  A quotient that rounds beyond the largest double raises \<^verbatim>\<open>OverflowError\<close>. The
  largest double is \<open>2^1024 - 2^971\<close>, and everything from \<open>2^1024 - 2^970\<close> on rounds
  past it.
\<close>

definition float_overflow :: "rat \<Rightarrow> bool" where
  "float_overflow q \<longleftrightarrow> 2 ^ 1024 - 2 ^ 970 \<le> \<bar>q\<bar>"

fun py_truediv :: "json \<Rightarrow> json \<Rightarrow> pyerr + pyval" where
  "py_truediv a b =
     (case (as_int a, as_int b) of
        (Some i, Some j) \<Rightarrow>
          if j = 0 then Inl ZeroDivisionError
          else if float_overflow (of_int i / of_int j) then Inl OverflowError
          else Inr (PyFloat (nearest_double i j))
      | _ \<Rightarrow> Inl TypeError)"

text \<open>
  Dictionary keys. Lists and dictionaries are not hashable. Keys are compared with
  \<^verbatim>\<open>==\<close>, under which \<^verbatim>\<open>True == 1\<close> and \<^verbatim>\<open>False == 0\<close>.
\<close>

fun hashable :: "json \<Rightarrow> bool" where
  "hashable (JArr xs) = False"
| "hashable (JObj kvs) = False"
| "hashable _ = True"

fun norm_key :: "json \<Rightarrow> json" where
  "norm_key (JBool b) = JInt (if b then 1 else 0)"
| "norm_key x = x"

definition key_eq :: "json \<Rightarrow> json \<Rightarrow> bool" where
  "key_eq a b \<longleftrightarrow> norm_key a = norm_key b"

text \<open>
  A dictionary built by the program, in insertion order: \<open>dict_lookup\<close> is \<^verbatim>\<open>d.get(k)\<close>,
  \<open>dict_store\<close> is \<^verbatim>\<open>d[k] = v\<close> (an existing key keeps its place and its first
  spelling).
\<close>

fun dict_lookup :: "json \<Rightarrow> (json \<times> 'v) list \<Rightarrow> 'v option" where
  "dict_lookup k [] = None"
| "dict_lookup k (p # d) = (if key_eq (fst p) k then Some (snd p) else dict_lookup k d)"

fun dict_store :: "json \<Rightarrow> 'v \<Rightarrow> (json \<times> 'v) list \<Rightarrow> (json \<times> 'v) list" where
  "dict_store k v [] = [(k, v)]"
| "dict_store k v (p # d) =
     (if key_eq (fst p) k then (fst p, v) # d else p # dict_store k v d)"

section \<open>The Admin API client\<close>

text \<open>
  What \<^verbatim>\<open>requests.get\<close> can do: raise a \<^verbatim>\<open>RequestException\<close> (DNS, connection,
  timeout), or return a response. Of a response the code reads the status code, the
  body decoded as UTF-8 (only to print it) and the body parsed as JSON. A body that is
  not JSON makes \<^verbatim>\<open>response.json()\<close> raise; \<open>Not_json True\<close> is a library whose
  decoding error is a \<^verbatim>\<open>RequestException\<close> (requests 2.27 and later),
  \<open>Not_json False\<close> one that raises a plain \<^verbatim>\<open>ValueError\<close>.
\<close>

datatype decoded = Json json | Not_json bool

datatype http_outcome =
    RequestException
  | Response (status_code: nat) (content_is_utf8: bool) (json_body: decoded)

text \<open>
  The argument string of a request: \<^verbatim>\<open>None\<close>, a literal, or
  \<^verbatim>\<open>'...{0}...'.format(v)\<close>, kept as the text before the value, the value and the
  text after it.
\<close>

datatype args = Lit string | Format string json string

text \<open>The gateway, as the program sees it: what the request for a resource returns.\<close>

type_synonym gateway = "string \<Rightarrow> args option \<Rightarrow> http_outcome"

text \<open>
  \<^verbatim>\<open>_request_data\<close>. \<^verbatim>\<open>requests.codes.ok\<close> is 200. A bare \<^verbatim>\<open>return\<close> gives
  \<^verbatim>\<open>None\<close>, which is \<open>JNull\<close>. Printing is not modelled, but the decoding of the body
  for the message is, since it can raise.
\<close>

definition request_data :: "gateway \<Rightarrow> string \<Rightarrow> args option \<Rightarrow> pyerr + json" where
  "request_data gw query args =
     (case gw query args of
        RequestException \<Rightarrow> Inr JNull
      | Response status utf8 body \<Rightarrow>
          if status = 200 then
            (case body of
               Json j \<Rightarrow> Inr j
             | Not_json caught \<Rightarrow> if caught then Inr JNull else Inl ValueError)
          else if utf8 then Inr JNull
          else Inl UnicodeDecodeError)"

section \<open>Sequencing code that can raise\<close>

text \<open>
  A statement that raises ends the method: \<open>and_then r f\<close> runs \<open>f\<close> on the value of \<open>r\<close>
  unless \<open>r\<close> raised. \<open>for_each\<close> is a \<^verbatim>\<open>for\<close> loop whose body updates a state.
\<close>

definition and_then :: "'e + 'a \<Rightarrow> ('a \<Rightarrow> 'e + 'b) \<Rightarrow> 'e + 'b" where
  "and_then r f = (case r of Inl e \<Rightarrow> Inl e | Inr x \<Rightarrow> f x)"

fun for_each :: "('s \<Rightarrow> 'a \<Rightarrow> 'e + 's) \<Rightarrow> 's \<Rightarrow> 'a list \<Rightarrow> 'e + 's" where
  "for_each body s [] = Inr s"
| "for_each body s (x # xs) = (case body s x of Inl e \<Rightarrow> Inl e | Inr s' \<Rightarrow> for_each body s' xs)"

section \<open>The collector's state\<close>

text \<open>
  A metric family holds samples: the label values and the number given to
  \<^verbatim>\<open>add_metric\<close>. A label is a value of the payload as it is, or \<^verbatim>\<open>str(v)\<close> of one.
  \<^verbatim>\<open>self._prometheus_metrics\<close> maps the thirteen family keys to their families.
\<close>

datatype label = Raw json | Str json

datatype sample = Sample "label list" pyval

type_synonym metrics = "string \<Rightarrow> sample list"

text \<open>
  A \<^verbatim>\<open>Counter\<close> of the usage dictionary after its first update: the four counters
  of one (owner, bucket, category).
\<close>

record counter =
  ops :: json
  successful_ops :: json
  bytes_sent :: json
  bytes_received :: json

type_synonym category_dict = "(json \<times> counter) list"
type_synonym bucket_dict = "(json \<times> category_dict) list"
type_synonym owner_dict = "(json \<times> bucket_dict) list"

text \<open>
  The fields of \<^verbatim>\<open>self\<close> that a poll cycle writes. \<open>views\<close> is not a field of the
  program: it lists, for each request of the current cycle, the metric families as they
  stand while that request is waiting for the gateway, which is what \<^verbatim>\<open>collect\<close>
  returns to a scrape arriving at that moment.
\<close>

record collector =
  prometheus_metrics :: metrics
  usage_dict :: owner_dict
  views :: "metrics list"

definition in_flight :: "collector \<Rightarrow> collector" where
  "in_flight c = c\<lparr>views := views c @ [prometheus_metrics c]\<rparr>"

definition metric_keys :: "string list" where
  "metric_keys =
     [''ops'', ''successful_ops'', ''bytes_sent'', ''bytes_received'',
      ''bucket_usage_bytes'', ''bucket_utilized_bytes'', ''bucket_usage_objects'',
      ''scrape_duration_seconds'', ''bucket_quota_bytes'', ''bucket_quota_max_objects'',
      ''user_quota_utilized'', ''user_quota_limit'', ''user_quota_used'']"

text \<open>\<^verbatim>\<open>_setup_empty_prometheus_metrics\<close>: every family without samples.\<close>

definition setup_empty_prometheus_metrics :: metrics where
  "setup_empty_prometheus_metrics = (\<lambda>key. [])"

text \<open>\<^verbatim>\<open>self._prometheus_metrics[key].add_metric(labels, value)\<close>.\<close>

definition add_metric :: "string \<Rightarrow> label list \<Rightarrow> pyval \<Rightarrow> metrics \<Rightarrow> metrics" where
  "add_metric key labels v m = m(key := m key @ [Sample labels v])"

text \<open>\<^verbatim>\<open>collect\<close>: the families, in the order of the dictionary.\<close>

definition collect :: "collector \<Rightarrow> sample list list" where
  "collect c = map (prometheus_metrics c) metric_keys"

section \<open>The usage merger\<close>

text \<open>
  The body of the loop over \<^verbatim>\<open>bucket['categories']\<close>, on the dictionary of the
  bucket's categories. A category seen for the first time gets a new, empty
  \<^verbatim>\<open>Counter\<close>, and \<^verbatim>\<open>update\<close> on an empty counter stores the values as they are;
  on a counter that has values it stores, key by key, the new value plus the old one.
\<close>

definition counter_update :: "counter option \<Rightarrow> counter \<Rightarrow> pyerr + counter" where
  "counter_update old new =
     (case old of
        None \<Rightarrow> Inr new
      | Some c \<Rightarrow>
          and_then (py_add (ops new) (ops c)) (\<lambda>a.
          and_then (py_add (successful_ops new) (successful_ops c)) (\<lambda>b.
          and_then (py_add (bytes_sent new) (bytes_sent c)) (\<lambda>s.
          and_then (py_add (bytes_received new) (bytes_received c)) (\<lambda>r.
            Inr \<lparr>ops = a, successful_ops = b, bytes_sent = s, bytes_received = r\<rparr>)))))"

definition get_usage_category :: "category_dict \<Rightarrow> json \<Rightarrow> pyerr + category_dict" where
  "get_usage_category cd category =
     and_then (getitem category ''category'') (\<lambda>category_name.
       if \<not> hashable category_name then Inl TypeError
       else
         and_then (getitem category ''ops'') (\<lambda>a.
         and_then (getitem category ''successful_ops'') (\<lambda>b.
         and_then (getitem category ''bytes_sent'') (\<lambda>s.
         and_then (getitem category ''bytes_received'') (\<lambda>r.
         and_then (counter_update (dict_lookup category_name cd)
                     \<lparr>ops = a, successful_ops = b, bytes_sent = s, bytes_received = r\<rparr>) (\<lambda>c.
           Inr (dict_store category_name c cd)))))))"

text \<open>The body of the loop over \<^verbatim>\<open>entry['buckets']\<close>, on the owner's dictionary.\<close>

definition get_usage_bucket :: "bucket_dict \<Rightarrow> json \<Rightarrow> pyerr + bucket_dict" where
  "get_usage_bucket bd bucket =
     and_then (getitem bucket ''bucket'') (\<lambda>name.
       let bucket_name = (if \<not> truthy name then JStr ''bucket_root'' else name) in
       if \<not> hashable bucket_name then Inl TypeError
       else
         let cd = (case dict_lookup bucket_name bd of None \<Rightarrow> [] | Some d \<Rightarrow> d) in
         and_then (getitem bucket ''categories'') (\<lambda>categories.
         and_then (py_iter categories) (\<lambda>cs.
         and_then (for_each get_usage_category cd cs) (\<lambda>cd'.
           Inr (dict_store bucket_name cd' bd)))))"

text \<open>
  \<^verbatim>\<open>_get_usage\<close>. The owner is the entry's \<^verbatim>\<open>owner\<close>, or else its \<^verbatim>\<open>user\<close>; when
  the entry has neither, no branch assigns \<^verbatim>\<open>bucket_owner\<close> and its first read
  raises.
\<close>

definition get_usage :: "owner_dict \<Rightarrow> json \<Rightarrow> pyerr + owner_dict" where
  "get_usage ud entry =
     and_then (contains ''owner'' entry) (\<lambda>has_owner.
     and_then
       (if has_owner then getitem entry ''owner''
        else
          and_then (contains ''user'' entry) (\<lambda>has_user.
            if has_user then getitem entry ''user''
            else Inl (UnboundLocalError ''bucket_owner''))) (\<lambda>bucket_owner.
       if \<not> hashable bucket_owner then Inl TypeError
       else
         let bd = (case dict_lookup bucket_owner ud of None \<Rightarrow> [] | Some d \<Rightarrow> d) in
         and_then (getitem entry ''buckets'') (\<lambda>buckets.
         and_then (py_iter buckets) (\<lambda>bs.
         and_then (for_each get_usage_bucket bd bs) (\<lambda>bd'.
           Inr (dict_store bucket_owner bd' ud))))))"

text \<open>
  \<^verbatim>\<open>_update_usage_metrics\<close>: one sample in each of the four usage families for every
  (owner, bucket, category), in the order of the nested dictionaries.
\<close>

definition usage_rows :: "owner_dict \<Rightarrow> (json \<times> json \<times> json \<times> counter) list" where
  "usage_rows ud =
     concat (map (\<lambda>(bucket_owner, bd).
       concat (map (\<lambda>(bucket_name, cd).
         map (\<lambda>(category, data_dict). (bucket_owner, bucket_name, category, data_dict)) cd)
       bd)) ud)"

definition usage_row_metrics :: "json \<times> json \<times> json \<times> counter \<Rightarrow> metrics \<Rightarrow> metrics" where
  "usage_row_metrics row m =
     (case row of (bucket_owner, bucket_name, category, data_dict) \<Rightarrow>
        let labels = [Raw bucket_name, Raw bucket_owner, Raw category] in
        add_metric ''bytes_received'' labels (Obj (bytes_received data_dict))
          (add_metric ''bytes_sent'' labels (Obj (bytes_sent data_dict))
            (add_metric ''successful_ops'' labels (Obj (successful_ops data_dict))
              (add_metric ''ops'' labels (Obj (ops data_dict)) m))))"

definition update_usage_metrics :: "owner_dict \<Rightarrow> metrics \<Rightarrow> metrics" where
  "update_usage_metrics ud m = fold usage_row_metrics (usage_rows ud) m"

section \<open>The bucket stat normalizer\<close>

text \<open>
  The block under \<^verbatim>\<open>if bucket['usage']:\<close>. Every read goes through
  \<^verbatim>\<open>bucket['usage']['rgw.main']\<close>; the result is the triple of usage bytes, utilized
  bytes and number of objects.
\<close>

definition bucket_usage_fields :: "json \<Rightarrow> pyerr + json \<times> json \<times> json" where
  "bucket_usage_fields usage =
     and_then (getitem usage ''rgw.main'') (\<lambda>main.
     and_then (contains ''size_actual'' main) (\<lambda>has_size_actual.
     and_then
       (if has_size_actual then getitem main ''size_actual''
        else
          and_then (contains ''size_kb_actual'' main) (\<lambda>has_size_kb_actual.
            if has_size_kb_actual then
              and_then (getitem main ''size_kb_actual'') (\<lambda>usage_kb. py_mul usage_kb 1024)
            else Inr (JInt 0))) (\<lambda>bucket_usage_bytes.
     and_then (contains ''size_utilized'' main) (\<lambda>has_size_utilized.
     and_then (if has_size_utilized then getitem main ''size_utilized'' else Inr (JInt 0))
       (\<lambda>bucket_utilized_bytes.
     and_then (contains ''num_objects'' main) (\<lambda>has_num_objects.
     and_then (if has_num_objects then getitem main ''num_objects'' else Inr (JInt 0))
       (\<lambda>bucket_usage_objects.
         Inr (bucket_usage_bytes, bucket_utilized_bytes, bucket_usage_objects))))))))"

text \<open>The block under \<^verbatim>\<open>if 'bucket_quota' in bucket:\<close>: quota bytes and quota objects.\<close>

definition bucket_quota_fields :: "json \<Rightarrow> pyerr + json \<times> json" where
  "bucket_quota_fields bucket_quota =
     and_then (contains ''max_size'' bucket_quota) (\<lambda>has_max_size.
     and_then (if has_max_size then getitem bucket_quota ''max_size'' else Inr (JInt 0))
       (\<lambda>bucket_quota_bytes.
     and_then (contains ''max_objects'' bucket_quota) (\<lambda>has_max_objects.
     and_then (if has_max_objects then getitem bucket_quota ''max_objects'' else Inr (JInt 0))
       (\<lambda>bucket_quota_max_objects.
         Inr (bucket_quota_bytes, bucket_quota_max_objects)))))"

text \<open>
  The local variables of \<^verbatim>\<open>_get_bucket_usage\<close> when it reaches its
  \<^verbatim>\<open>add_metric\<close> calls.
\<close>

record bucket_locals =
  b_name :: json
  b_owner :: json
  b_zonegroup :: json
  b_usage_bytes :: json
  b_utilized_bytes :: json
  b_usage_objects :: json
  b_quota_bytes :: json
  b_quota_max_objects :: json

text \<open>
  \<^verbatim>\<open>_get_bucket_usage\<close> on a dictionary, up to the first \<^verbatim>\<open>add_metric\<close>: everything
  that reads the record, and so everything that can raise.
\<close>

definition read_bucket :: "json \<Rightarrow> pyerr + bucket_locals" where
  "read_bucket bucket =
     and_then (getitem bucket ''bucket'') (\<lambda>bucket_name.
     and_then (getitem bucket ''owner'') (\<lambda>bucket_owner.
     and_then (getitem bucket ''usage'') (\<lambda>usage.
     and_then (if truthy usage then bucket_usage_fields usage
               else Inr (JInt 0, JInt 0, JInt 0)) (\<lambda>usage_fields.
     and_then (contains ''zonegroup'' bucket) (\<lambda>has_zonegroup.
     and_then (if has_zonegroup then getitem bucket ''zonegroup'' else Inr (JStr ''0''))
       (\<lambda>bucket_zonegroup.
     and_then (contains ''bucket_quota'' bucket) (\<lambda>has_bucket_quota.
     and_then (if has_bucket_quota then
                 and_then (getitem bucket ''bucket_quota'') bucket_quota_fields
               else Inr (JInt 0, JInt 0)) (\<lambda>quota_fields.
       Inr \<lparr>b_name = bucket_name, b_owner = bucket_owner, b_zonegroup = bucket_zonegroup,
            b_usage_bytes = fst usage_fields,
            b_utilized_bytes = fst (snd usage_fields),
            b_usage_objects = snd (snd usage_fields),
            b_quota_bytes = fst quota_fields,
            b_quota_max_objects = snd quota_fields\<rparr>))))))))"

text \<open>The five \<^verbatim>\<open>add_metric\<close> calls, in the order of the source.\<close>

definition add_bucket_metrics :: "bucket_locals \<Rightarrow> metrics \<Rightarrow> metrics" where
  "add_bucket_metrics b m =
     (let labels = [Raw (b_name b), Raw (b_owner b), Raw (b_zonegroup b)] in
      add_metric ''bucket_quota_max_objects'' labels (Obj (b_quota_max_objects b))
        (add_metric ''bucket_quota_bytes'' labels (Obj (b_quota_bytes b))
          (add_metric ''bucket_usage_objects'' labels (Obj (b_usage_objects b))
            (add_metric ''bucket_utilized_bytes'' labels (Obj (b_utilized_bytes b))
              (add_metric ''bucket_usage_bytes'' labels (Obj (b_usage_bytes b)) m)))))"

text \<open>
  \<^verbatim>\<open>_get_bucket_usage\<close>: a record that is a dictionary adds one sample to each of the
  five bucket families; anything else is skipped.
\<close>

definition get_bucket_usage :: "metrics \<Rightarrow> json \<Rightarrow> pyerr + metrics" where
  "get_bucket_usage m bucket =
     (if is_dict bucket then
        and_then (read_bucket bucket) (\<lambda>b. Inr (add_bucket_metrics b m))
      else Inr m)"

section \<open>The quota evaluator\<close>

text \<open>\<^verbatim>\<open>_get_users_ids\<close>, \<^verbatim>\<open>_get_quota_by_project\<close> and \<^verbatim>\<open>_get_user_info\<close>.\<close>

definition get_users_ids :: "gateway \<Rightarrow> pyerr + json" where
  "get_users_ids gw = request_data gw ''metadata/user'' None"

definition get_quota_by_project :: "gateway \<Rightarrow> json \<Rightarrow> pyerr + json" where
  "get_quota_by_project gw project =
     and_then (request_data gw ''user'' (Some (Format ''quota&uid='' project ''&quota-type=user'')))
       (\<lambda>quota. getitem quota ''max_size'')"

definition get_user_info :: "gateway \<Rightarrow> json \<Rightarrow> pyerr + json" where
  "get_user_info gw project =
     request_data gw ''user'' (Some (Format ''stats=True&uid='' project []))"

text \<open>
  The local variables of \<^verbatim>\<open>_get_user_quota\<close> when it reaches its \<^verbatim>\<open>add_metric\<close>
  calls.
\<close>

record quota_locals =
  project_name :: json
  project_id :: json
  project_quota :: json
  used_size :: json
  used_size_percent :: pyval

text \<open>
  \<^verbatim>\<open>_get_user_quota\<close> from the read of \<^verbatim>\<open>user['display_name']\<close> to the division:
  everything that reads the user's record.
\<close>

definition read_user_quota :: "json \<Rightarrow> json \<Rightarrow> pyerr + quota_locals" where
  "read_user_quota user quota =
     and_then (getitem user ''display_name'') (\<lambda>name.
     and_then (getitem user ''user_id'') (\<lambda>uid.
     and_then (getitem user ''stats'') (\<lambda>stats.
     and_then (getitem stats ''size_actual'') (\<lambda>used.
     and_then (py_mul used 100) (\<lambda>scaled.
     and_then (py_truediv scaled quota) (\<lambda>percent.
       Inr \<lparr>project_name = name, project_id = uid, project_quota = quota,
            used_size = used, used_size_percent = percent\<rparr>))))))"

text \<open>The three \<^verbatim>\<open>add_metric\<close> calls, in the order of the source.\<close>

definition add_quota_metrics :: "quota_locals \<Rightarrow> metrics \<Rightarrow> metrics" where
  "add_quota_metrics q m =
     (let labels = [Str (project_name q), Str (project_id q)] in
      add_metric ''user_quota_used'' labels (Obj (used_size q))
        (add_metric ''user_quota_limit'' labels (Obj (project_quota q))
          (add_metric ''user_quota_utilized'' labels (used_size_percent q) m)))"

text \<open>
  \<^verbatim>\<open>_get_user_quota\<close>. Each of its two requests is marked with \<open>in_flight\<close>. The
  method returns nothing; a user for whom it adds no sample leaves the metrics as they
  were.
\<close>

definition get_user_quota :: "gateway \<Rightarrow> collector \<Rightarrow> json \<Rightarrow> pyerr + collector" where
  "get_user_quota gw c project =
     (let c1 = in_flight c in
      and_then (get_quota_by_project gw project) (\<lambda>quota.
      and_then (py_gt0 quota) (\<lambda>positive.
        if positive then
          (let c2 = in_flight c1 in
           and_then (get_user_info gw project) (\<lambda>user.
             if user \<noteq> JNull then
               and_then (read_user_quota user quota) (\<lambda>q.
                 Inr (c2\<lparr>prometheus_metrics := add_quota_metrics q (prometheus_metrics c2)\<rparr>))
             else Inr c2))
        else Inr c1)))"

section \<open>One poll cycle\<close>

text \<open>The three blocks under \<^verbatim>\<open># populate metrics with data\<close>.\<close>

definition populate_usage :: "json \<Rightarrow> collector \<Rightarrow> pyerr + collector" where
  "populate_usage rgw_usage c =
     (if truthy rgw_usage then
        and_then (getitem rgw_usage ''entries'') (\<lambda>entries.
        and_then (py_iter entries) (\<lambda>es.
        and_then (for_each get_usage (usage_dict c) es) (\<lambda>ud.
          Inr (c\<lparr>usage_dict := ud,
                 prometheus_metrics := update_usage_metrics ud (prometheus_metrics c)\<rparr>))))
      else Inr c)"

definition populate_buckets :: "json \<Rightarrow> collector \<Rightarrow> pyerr + collector" where
  "populate_buckets rgw_bucket c =
     (if truthy rgw_bucket then
        and_then (py_iter rgw_bucket) (\<lambda>bs.
        and_then (for_each get_bucket_usage (prometheus_metrics c) bs) (\<lambda>m.
          Inr (c\<lparr>prometheus_metrics := m\<rparr>)))
      else Inr c)"

definition populate_quotas :: "gateway \<Rightarrow> json \<Rightarrow> collector \<Rightarrow> pyerr + collector" where
  "populate_quotas gw rgw_users c =
     (if truthy rgw_users then
        and_then (py_iter rgw_users) (\<lambda>us. for_each (get_user_quota gw) c us)
      else Inr c)"

text \<open>
  \<^verbatim>\<open>_scrape_metrics\<close>. \<open>duration\<close> is what the clock gives for
  \<^verbatim>\<open>time.time() - start\<close>. The cycle begins by replacing the metric families with
  empty ones and the usage dictionary with an empty one; the three top-level requests
  follow, each marked with \<open>in_flight\<close>.
\<close>

definition scrape_metrics :: "gateway \<Rightarrow> rat \<Rightarrow> collector \<Rightarrow> pyerr + collector" where
  "scrape_metrics gw duration c =
     (let c0 = c\<lparr>prometheus_metrics := setup_empty_prometheus_metrics,
                  usage_dict := [], views := []\<rparr> in
      and_then (request_data gw ''usage'' (Some (Lit ''show-summary=False''))) (\<lambda>rgw_usage.
      and_then (request_data gw ''bucket'' (Some (Lit ''stats=True''))) (\<lambda>rgw_bucket.
      and_then (get_users_ids gw) (\<lambda>rgw_users.
      and_then (populate_usage rgw_usage (in_flight (in_flight (in_flight c0)))) (\<lambda>c1.
      and_then (populate_buckets rgw_bucket c1) (\<lambda>c2.
      and_then (populate_quotas gw rgw_users c2) (\<lambda>c3.
        Inr (c3\<lparr>prometheus_metrics :=
               add_metric ''scrape_duration_seconds'' [] (PyFloat duration)
                 (prometheus_metrics c3)\<rparr>))))))))"

section \<open>Reading results\<close>

text \<open>
  The collector before its first cycle, and the samples of one family in the outcome of
  a method.
\<close>

definition idle :: collector where
  "idle = \<lparr>prometheus_metrics = setup_empty_prometheus_metrics, usage_dict = [], views = []\<rparr>"

definition family :: "string \<Rightarrow> pyerr + collector \<Rightarrow> pyerr + sample list" where
  "family key r = (case r of Inl e \<Rightarrow> Inl e | Inr c \<Rightarrow> Inr (prometheus_metrics c key))"



section \<open>Usage entries and their totals\<close>





















definition all_values :: "('v \<Rightarrow> bool) \<Rightarrow> (json \<times> 'v) list \<Rightarrow> bool" where
  "all_values P d = list_all (\<lambda>p. P (snd p)) d"


section \<open>Example gateways\<close>

text \<open>
  A gateway that answers the usage request with status 202 and a well-formed JSON body,
  and one that answers it with status 200 and the same body.
\<close>

definition usage_args :: "args option" where
  "usage_args = Some (Lit ''show-summary=False'')"



text \<open>
  A gateway with one user, \<^verbatim>\<open>alice\<close>, who owns one bucket; her quota limit and the
  bytes she uses are parameters. Any other request is rejected with status 404.
\<close>

definition bucket_args :: "args option" where
  "bucket_args = Some (Lit ''stats=True'')"

definition quota_args :: "json \<Rightarrow> args option" where
  "quota_args project = Some (Format ''quota&uid='' project ''&quota-type=user'')"

definition info_args :: "json \<Rightarrow> args option" where
  "info_args project = Some (Format ''stats=True&uid='' project [])"

definition demo_usage :: json where
  "demo_usage = JObj [(''entries'', JArr
     [JObj [(''owner'', JStr ''alice''),
            (''buckets'', JArr
              [JObj [(''bucket'', JStr ''photos''),
                     (''categories'', JArr
                       [JObj [(''category'', JStr ''put_obj''), (''ops'', JInt 3),
                              (''successful_ops'', JInt 2), (''bytes_sent'', JInt 10),
                              (''bytes_received'', JInt 500)]])]])]])]"

definition demo_buckets :: json where
  "demo_buckets = JArr
     [JObj [(''bucket'', JStr ''photos''), (''owner'', JStr ''alice''),
            (''usage'', JObj [(''rgw.main'', JObj [(''size_kb_actual'', JInt 100),
                                                   (''num_objects'', JInt 7)])])]]"

definition demo_gateway :: "int \<Rightarrow> int \<Rightarrow> gateway" where
  "demo_gateway limit used query args =
     (if query = ''usage'' \<and> args = usage_args then Response 200 True (Json demo_usage)
      else if query = ''bucket'' \<and> args = bucket_args
        then Response 200 True (Json demo_buckets)
      else if query = ''metadata/user'' \<and> args = None
        then Response 200 True (Json (JArr [JStr ''alice'']))
      else if query = ''user'' \<and> args = quota_args (JStr ''alice'')
        then Response 200 True
               (Json (JObj [(''enabled'', JBool True), (''max_size'', JInt limit)]))
      else if query = ''user'' \<and> args = info_args (JStr ''alice'')
        then Response 200 True
               (Json (JObj [(''user_id'', JStr ''alice''), (''display_name'', JStr ''Alice''),
                            (''stats'', JObj [(''size_actual'', JInt used)])]))
      else Response 404 True (Not_json True))"


definition bucket_without_main :: json where
  "bucket_without_main =
     JObj [(''bucket'', JStr ''uploads''), (''owner'', JStr ''alice''),
           (''usage'', JObj [(''rgw.multimeta'', JObj [(''size_actual'', JInt 0),
                                                       (''num_objects'', JInt 1)])])]"

definition bucket_without_usage :: json where
  "bucket_without_usage = JObj [(''bucket'', JStr ''uploads''), (''owner'', JStr ''alice'')]"


definition gw_quota_down :: gateway where
  "gw_quota_down query args =
     (if query = ''user'' \<and> args = quota_args (JStr ''alice'') then RequestException
      else demo_gateway 1000 250 query args)"



section \<open>Reads during a cycle\<close>

text \<open>
  \<open>grows c c'\<close>: from \<open>c\<close> to \<open>c'\<close> every metric family has only gained samples at its
  end, and the views added in between show families that \<open>c'\<close> extends.
\<close>

definition grows :: "collector \<Rightarrow> collector \<Rightarrow> bool" where
  "grows c c' \<longleftrightarrow>
     (\<forall>k. prefix (prometheus_metrics c k) (prometheus_metrics c' k))
     \<and> (\<exists>vs. views c' = views c @ vs
            \<and> (\<forall>v \<in> set vs. \<forall>k. prefix (v k) (prometheus_metrics c' k)))"

text \<open>
  Two cycles in a row against the gateway of \<open>demo_gateway 1000 250\<close>, and the views of
  an outcome.
\<close>

definition views_of :: "pyerr + collector \<Rightarrow> metrics list" where
  "views_of r = (case r of Inl e \<Rightarrow> [] | Inr c \<Rightarrow> views c)"

definition demo_first_cycle :: "pyerr + collector" where
  "demo_first_cycle = scrape_metrics (demo_gateway 1000 250) (1 / 2) idle"

definition demo_second_cycle :: "pyerr + collector" where
  "demo_second_cycle = and_then demo_first_cycle (scrape_metrics (demo_gateway 1000 250) (1 / 2))"

section \<open>Verified properties\<close>

subsection \<open>Sequencing\<close>

lemma and_then_Inl [simp]: "and_then (Inl e) f = Inl e"
  by (simp add: and_then_def)

lemma and_then_Inr [simp]: "and_then (Inr x) f = f x"
  by (simp add: and_then_def)

lemma for_each_fails:
  assumes "x \<in> set xs" and "\<And>s. \<exists>e. body s x = Inl e"
  shows "\<exists>e. for_each body s xs = Inl e"
  using assms(1)
proof (induction xs arbitrary: s)
  case Nil
  then show ?case by simp
next
  case (Cons y ys)
  show ?case
  proof (cases "body s y")
    case (Inl e)
    then show ?thesis by simp
  next
    case (Inr s')
    show ?thesis
    proof (cases "x = y")
      case True
      with assms(2)[of s] Inr show ?thesis by simp
    next
      case False
      with Cons.prems have "x \<in> set ys" by simp
      from Cons.IH[OF this, of s'] Inr show ?thesis by simp
    qed
  qed
qed

subsection \<open>The Admin API client\<close>




subsection \<open>The usage merger\<close>

text \<open>
  Claim C10: an entry that is a dictionary with neither \<^verbatim>\<open>owner\<close> nor \<^verbatim>\<open>user\<close>
  makes \<^verbatim>\<open>_get_usage\<close> raise \<^verbatim>\<open>UnboundLocalError\<close> for \<^verbatim>\<open>bucket_owner\<close>,
  whatever the usage dictionary holds, and a list of entries that contains such an entry
  is not merged: the loop over it raises.
\<close>

theorem get_usage_unbound_owner:
  assumes "''owner'' \<notin> set (map fst kvs)" and "''user'' \<notin> set (map fst kvs)"
  shows "get_usage ud (JObj kvs) = Inl (UnboundLocalError ''bucket_owner'')
       \<and> (JObj kvs \<in> set es \<longrightarrow> (\<exists>e. for_each get_usage ud0 es = Inl e))"
proof -
  have one: "get_usage u (JObj kvs) = Inl (UnboundLocalError ''bucket_owner'')" for u
    using assms by (simp add: get_usage_def)
  have "\<exists>e. for_each get_usage ud0 es = Inl e" if "JObj kvs \<in> set es"
    by (rule for_each_fails[OF that]) (simp add: one)
  with one show ?thesis by blast
qed

theorem get_usage_unbound_owner_witness:
  "get_usage [] (JObj [(''buckets'', JArr [])]) = Inl (UnboundLocalError ''bucket_owner'')
   \<and> (\<exists>e. for_each get_usage []
          [JObj [(''owner'', JStr ''alice''), (''buckets'', JArr [])],
           JObj [(''buckets'', JArr [])]] = Inl e)"
  using get_usage_unbound_owner[of "[(''buckets'', JArr [])]" "[]"
          "[JObj [(''owner'', JStr ''alice''), (''buckets'', JArr [])],
            JObj [(''buckets'', JArr [])]]" "[]"]
  by simp

subsection \<open>Floats\<close>

lemma bits_pos: "0 < n \<Longrightarrow> bits n = Suc (bits (n div 2))"
  by (cases n) simp_all

lemma bits_numeral: "bits (numeral k) = Suc (bits (numeral k div 2))"
  by (rule bits_pos) simp

lemma bits_one [simp]: "bits 1 = 1"
  by (simp add: bits_pos)

lemma bits_bounds: "0 < n \<Longrightarrow> 2 ^ (bits n - 1) \<le> n \<and> n < 2 ^ bits n"
proof (induction n rule: less_induct)
  case (less n)
  from less.prems have b: "bits n = Suc (bits (n div 2))" by (rule bits_pos)
  show ?case
  proof (cases "n div 2 = 0")
    case True
    with less.prems have "n = 1" by (simp add: div_eq_0_iff)
    then show ?thesis by simp
  next
    case False
    then have pos: "0 < n div 2" by simp
    from less.prems have "n div 2 < n" by simp
    from less.IH[OF this pos] have lo: "2 ^ (bits (n div 2) - 1) \<le> n div 2"
      and hi: "n div 2 < 2 ^ bits (n div 2)" by simp_all
    from pos have "bits (n div 2) \<noteq> 0" by (simp add: bits_pos)
    then have s: "bits (n div 2) = Suc (bits (n div 2) - 1)" by simp
    have "(2::nat) ^ bits (n div 2) = 2 * 2 ^ (bits (n div 2) - 1)"
      by (subst s) simp
    also have "\<dots> \<le> 2 * (n div 2)" using lo by simp
    also have "\<dots> \<le> n" by simp
    finally have l: "2 ^ (bits n - 1) \<le> n" by (simp add: b)
    from hi have "n div 2 + 1 \<le> 2 ^ bits (n div 2)" by simp
    then have "2 * (n div 2) + 2 \<le> 2 * 2 ^ bits (n div 2)" by simp
    moreover have "n < 2 * (n div 2) + 2" by presburger
    ultimately have "n < 2 ^ bits n" by (simp add: b)
    with l show ?thesis by simp
  qed
qed

lemma two_powi_split: "(2::rat) ^ nat e / 2 ^ nat (- e) = 2 powi e"
proof (cases "0 \<le> e")
  case True
  then show ?thesis by (simp add: power_int_nonneg_exp)
next
  case False
  then have "0 \<le> - e" by simp
  then have "(2::rat) powi (- e) = 2 ^ nat (- e)" by (rule power_int_nonneg_exp)
  moreover have "(2::rat) powi e = 1 / 2 powi (- e)"
    using power_int_minus_divide[of "2::rat" "- e"] by simp
  ultimately show ?thesis using False by simp
qed







lemma floor_log2_less:
  assumes "0 < n" and "0 < d"
  shows "of_nat n / of_nat d < (2::rat) powi (floor_log2 n d + 1)"
proof -
  let ?g = "int (bits n) - int (bits d)"
  show ?thesis
  proof (cases "d * 2 ^ nat ?g \<le> n * 2 ^ nat (- ?g)")
    case False
    then have fl: "floor_log2 n d = ?g - 1" by (simp add: floor_log2_def Let_def)
    from False have "n * 2 ^ nat (- ?g) < d * 2 ^ nat ?g" by simp
    then have "(of_nat (n * 2 ^ nat (- ?g)) :: rat) < of_nat (d * 2 ^ nat ?g)"
      by (simp only: of_nat_less_iff)
    then have "(of_nat n :: rat) * 2 ^ nat (- ?g) < of_nat d * 2 ^ nat ?g" by simp
    then have "of_nat n / of_nat d < (2::rat) ^ nat ?g / 2 ^ nat (- ?g)"
      using assms by (simp add: field_simps)
    also have "\<dots> = 2 powi ?g" by (rule two_powi_split)
    finally show ?thesis unfolding fl by simp
  next
    case True
    then have fl: "floor_log2 n d = ?g" by (simp add: floor_log2_def Let_def)
    from bits_bounds[OF assms(1)] have hi: "n < 2 ^ bits n" by simp
    from bits_bounds[OF assms(2)] have lo: "2 ^ (bits d - 1) \<le> d" by simp
    from assms(2) have "bits d \<noteq> 0" by (simp add: bits_pos)
    then have "?g + 1 = int (bits n) - int (bits d - 1)" by linarith
    then have "(2::rat) powi (?g + 1) = 2 powi (int (bits n) - int (bits d - 1))"
      by (rule arg_cong)
    also have "\<dots> = 2 ^ bits n / 2 ^ (bits d - 1)"
      by (simp add: power_int_diff)
    finally have p: "(2::rat) powi (?g + 1) = 2 ^ bits n / 2 ^ (bits d - 1)" .
    from hi have "(of_nat n :: rat) < of_nat (2 ^ bits n)" by (simp only: of_nat_less_iff)
    then have a: "(of_nat n :: rat) < 2 ^ bits n" by simp
    from lo have "(of_nat (2 ^ (bits d - 1)) :: rat) \<le> of_nat d" by (simp only: of_nat_le_iff)
    then have b: "(2::rat) ^ (bits d - 1) \<le> of_nat d" by simp
    have "(of_nat n :: rat) / of_nat d < 2 ^ bits n / of_nat d"
      using a assms by (simp add: divide_strict_right_mono)
    also have "\<dots> \<le> 2 ^ bits n / 2 ^ (bits d - 1)"
      using b by (simp add: frac_le)
    finally show ?thesis unfolding fl p .
  qed
qed

lemma round_half_even_div_le: "round_half_even_div n d \<le> n div d + 1"
  by (simp add: round_half_even_div_def Let_def)

lemma nearest_double_mantissa:
  assumes "i \<noteq> 0" and "j \<noteq> 0"
  shows "\<exists>m e. nearest_double i j = of_int (sgn i * sgn j * int m) * 2 powi e
           \<and> m \<le> 2 ^ 53 \<and> - 1074 \<le> e"
proof -
  define n where "n = nat \<bar>i\<bar>"
  define d where "d = nat \<bar>j\<bar>"
  define e where "e = ulp_exponent n d"
  define m where "m = round_half_even_div (n * 2 ^ nat (- e)) (d * 2 ^ nat e)"
  from assms have n: "0 < n" and d: "0 < d" by (simp_all add: n_def d_def)
  have nd: "nearest_double i j = of_int (sgn i * sgn j * int m) * 2 powi e"
    using assms by (simp add: nearest_double_def Let_def n_def d_def e_def m_def)
  have e1: "- 1074 \<le> e" and e2: "floor_log2 n d - 52 \<le> e"
    by (simp_all add: e_def ulp_exponent_def)
  have "of_nat n / of_nat d < (2::rat) powi (floor_log2 n d + 1)"
    by (rule floor_log2_less[OF n d])
  also have "\<dots> \<le> 2 powi (e + 53)"
    using e2 by (intro power_int_increasing) simp_all
  also have "\<dots> = 2 powi e * 2 ^ 53"
    by (simp add: power_int_add)
  also have "\<dots> = 2 ^ nat e / 2 ^ nat (- e) * 2 ^ 53"
    by (simp only: two_powi_split)
  finally have "(of_nat n :: rat) * 2 ^ nat (- e) < 2 ^ 53 * (of_nat d * 2 ^ nat e)"
    using d by (simp add: field_simps)
  then have "(of_nat (n * 2 ^ nat (- e)) :: rat) < of_nat (2 ^ 53 * (d * 2 ^ nat e))"
    by simp
  then have "n * 2 ^ nat (- e) < 2 ^ 53 * (d * 2 ^ nat e)"
    by (simp only: of_nat_less_iff)
  then have "n * 2 ^ nat (- e) div (d * 2 ^ nat e) < 2 ^ 53"
    using d by (simp add: div_less_iff_less_mult mult.commute)
  with round_half_even_div_le[of "n * 2 ^ nat (- e)" "d * 2 ^ nat e"]
  have "m \<le> 2 ^ 53" by (simp add: m_def)
  with nd e1 show ?thesis by blast
qed

subsection \<open>The quota evaluator\<close>

lemmas demo_defs = demo_gateway_def usage_args_def bucket_args_def quota_args_def info_args_def
  request_data_def get_quota_by_project_def get_user_info_def get_users_ids_def

lemma metrics_in_flight [simp]: "prometheus_metrics (in_flight c) = prometheus_metrics c"
  by (simp add: in_flight_def)

lemma get_user_quota_no_limit:
  assumes "get_quota_by_project gw project = Inr (JInt L)" and "L \<le> 0"
  shows "get_user_quota gw c project = Inr (in_flight c)"
  using assms by (simp add: get_user_quota_def Let_def)

lemma read_user_quota_int:
  assumes "getitem user ''display_name'' = Inr name"
    and "getitem user ''user_id'' = Inr uid"
    and "getitem user ''stats'' = Inr stats"
    and "getitem stats ''size_actual'' = Inr (JInt U)"
    and "0 < L"
    and "\<not> float_overflow (of_int (U * 100) / of_int L)"
  shows "read_user_quota user (JInt L) =
           Inr \<lparr>project_name = name, project_id = uid, project_quota = JInt L,
                used_size = JInt U,
                used_size_percent = PyFloat (nearest_double (U * 100) L)\<rparr>"
  using assms by (simp add: read_user_quota_def)

lemma get_user_quota_emits:
  assumes "get_quota_by_project gw project = Inr (JInt L)" and "0 < L"
    and "get_user_info gw project = Inr user"
    and "getitem user ''display_name'' = Inr pname"
    and "getitem user ''user_id'' = Inr pid"
    and "getitem user ''stats'' = Inr stats"
    and "getitem stats ''size_actual'' = Inr (JInt U)"
    and "\<not> float_overflow (of_int (U * 100) / of_int L)"
  shows "get_user_quota gw c project =
           Inr ((in_flight (in_flight c))\<lparr>prometheus_metrics :=
             add_metric ''user_quota_used'' [Str pname, Str pid] (Obj (JInt U))
               (add_metric ''user_quota_limit'' [Str pname, Str pid] (Obj (JInt L))
                 (add_metric ''user_quota_utilized'' [Str pname, Str pid]
                    (PyFloat (nearest_double (U * 100) L))
                    (prometheus_metrics c)))\<rparr>)"
proof -
  from assms(4) have "user \<noteq> JNull" by auto
  with assms(1-3) read_user_quota_int[OF assms(4-7) assms(2) assms(8)] show ?thesis
    by (simp add: get_user_quota_def add_quota_metrics_def Let_def)
qed

lemma demo_quota: "get_quota_by_project (demo_gateway L U) (JStr ''alice'') = Inr (JInt L)"
  by (simp add: demo_defs)

lemma demo_info: "get_user_info (demo_gateway L U) (JStr ''alice'') =
   Inr (JObj [(''user_id'', JStr ''alice''), (''display_name'', JStr ''Alice''),
              (''stats'', JObj [(''size_actual'', JInt U)])])"
  by (simp add: demo_defs)

lemmas float_defs = nearest_double_def ulp_exponent_def floor_log2_def round_half_even_div_def
  bits_numeral float_overflow_def




text \<open>
  Claim C9: a user whose quota limit is zero or negative gets no sample: the method
  returns with the metric families as they were. So whenever the method adds a
  utilization sample, the limit is positive. With limit 1000 and 250 bytes used the
  utilization sample is 25.
\<close>

theorem get_user_quota_limit:
  assumes "get_quota_by_project gw project = Inr (JInt L)"
  shows "(L \<le> 0 \<longrightarrow> (\<exists>c'. get_user_quota gw c project = Inr c'
                        \<and> prometheus_metrics c' = prometheus_metrics c))
       \<and> (\<forall>c'. get_user_quota gw c project = Inr c'
              \<longrightarrow> prometheus_metrics c' ''user_quota_utilized''
                    \<noteq> prometheus_metrics c ''user_quota_utilized''
              \<longrightarrow> 0 < L)
       \<and> family ''user_quota_utilized''
            (get_user_quota (demo_gateway 1000 250) idle (JStr ''alice''))
           = Inr [Sample [Str (JStr ''Alice''), Str (JStr ''alice'')] (PyFloat 25)]"
proof (intro conjI impI allI)
  assume "L \<le> 0"
  from get_user_quota_no_limit[OF assms this, of c]
  show "\<exists>c'. get_user_quota gw c project = Inr c' \<and> prometheus_metrics c' = prometheus_metrics c"
    by simp
next
  fix c'
  assume r: "get_user_quota gw c project = Inr c'"
    and d: "prometheus_metrics c' ''user_quota_utilized''
              \<noteq> prometheus_metrics c ''user_quota_utilized''"
  show "0 < L"
  proof (rule ccontr)
    assume "\<not> 0 < L"
    then have "L \<le> 0" by simp
    from get_user_quota_no_limit[OF assms this, of c] r d show False by auto
  qed
next
  let ?user = "JObj [(''user_id'', JStr ''alice''), (''display_name'', JStr ''Alice''),
                     (''stats'', JObj [(''size_actual'', JInt 250)])]"
  have p: "(0::int) < 1000" by simp
  have n: "getitem ?user ''display_name'' = Inr (JStr ''Alice'')" by simp
  have u: "getitem ?user ''user_id'' = Inr (JStr ''alice'')" by simp
  have s: "getitem ?user ''stats'' = Inr (JObj [(''size_actual'', JInt 250)])" by simp
  have z: "getitem (JObj [(''size_actual'', JInt 250)]) ''size_actual'' = Inr (JInt 250)" by simp
  have o: "\<not> float_overflow (of_int (250 * 100) / of_int 1000)"
    by (simp add: float_overflow_def)
  from get_user_quota_emits[OF demo_quota p demo_info n u s z o, of idle]
  show "family ''user_quota_utilized''
            (get_user_quota (demo_gateway 1000 250) idle (JStr ''alice''))
           = Inr [Sample [Str (JStr ''Alice''), Str (JStr ''alice'')] (PyFloat 25)]"
    by (simp add: family_def add_metric_def idle_def setup_empty_prometheus_metrics_def
        float_defs Let_def)
qed

theorem get_user_quota_limit_witness:
  "(\<exists>c'. get_user_quota (demo_gateway 0 250) idle (JStr ''alice'') = Inr c'
         \<and> prometheus_metrics c' = prometheus_metrics idle)
   \<and> family ''user_quota_utilized'' (get_user_quota (demo_gateway 1000 250) idle (JStr ''alice''))
       \<noteq> Inr (prometheus_metrics idle ''user_quota_utilized'')
   \<and> (0::int) < 1000"
proof -
  have a: "\<exists>c'. get_user_quota (demo_gateway 0 250) idle (JStr ''alice'') = Inr c'
         \<and> prometheus_metrics c' = prometheus_metrics idle"
    using get_user_quota_limit[OF demo_quota, of 0 250 idle] by simp
  have b: "family ''user_quota_utilized'' (get_user_quota (demo_gateway 1000 250) idle (JStr ''alice''))
       \<noteq> Inr (prometheus_metrics idle ''user_quota_utilized'')"
    using get_user_quota_limit[OF demo_quota, of 1000 250 idle]
    by (simp add: idle_def setup_empty_prometheus_metrics_def)
  from a b show ?thesis by simp
qed

subsection \<open>The bucket stat normalizer\<close>








text \<open>
  Claim C8 says that a missing numeric field, or a missing sub-record that carries
  one, never raises. The quota sub-record and the fields are tested with
  \<^verbatim>\<open>in\<close> before they are read, but the usage sub-records are not: a usage dictionary
  without \<^verbatim>\<open>rgw.main\<close> raises \<^verbatim>\<open>KeyError\<close>, and so does a record without
  \<^verbatim>\<open>usage\<close>.
\<close>

theorem get_bucket_usage_missing_main:
  "get_bucket_usage setup_empty_prometheus_metrics bucket_without_main
     = Inl (KeyError ''rgw.main'')
   \<and> get_bucket_usage setup_empty_prometheus_metrics bucket_without_usage
     = Inl (KeyError ''usage'')"
  by (simp add: get_bucket_usage_def read_bucket_def bucket_without_main_def
      bucket_without_usage_def bucket_usage_fields_def)

subsection \<open>One poll cycle\<close>






lemma and_then_eq_Inr_iff: "and_then r f = Inr y \<longleftrightarrow> (\<exists>x. r = Inr x \<and> f x = Inr y)"
  by (cases r) simp_all









lemmas cycle_defs = scrape_metrics_def populate_usage_def populate_buckets_def populate_quotas_def
  get_user_quota_def read_user_quota_def add_quota_metrics_def get_bucket_usage_def
  read_bucket_def add_bucket_metrics_def bucket_usage_fields_def bucket_quota_fields_def
  get_usage_def get_usage_bucket_def get_usage_category_def counter_update_def
  update_usage_metrics_def usage_rows_def usage_row_metrics_def add_metric_def in_flight_def
  setup_empty_prometheus_metrics_def idle_def demo_usage_def demo_buckets_def key_eq_def
  float_defs Let_def

lemma demo_cycle:
  "\<exists>c. scrape_metrics (demo_gateway 1000 250) (1 / 2) idle = Inr c
     \<and> prometheus_metrics c ''ops''
         = [Sample [Raw (JStr ''photos''), Raw (JStr ''alice''), Raw (JStr ''put_obj'')] (Obj (JInt 3))]
     \<and> prometheus_metrics c ''bucket_usage_bytes''
         = [Sample [Raw (JStr ''photos''), Raw (JStr ''alice''), Raw (JStr ''0'')] (Obj (JInt 102400))]
     \<and> prometheus_metrics c ''user_quota_utilized''
         = [Sample [Str (JStr ''Alice''), Str (JStr ''alice'')] (PyFloat 25)]"
  by (simp add: cycle_defs demo_defs)



text \<open>
  Claim C1 says that no failure of a single request aborts the cycle, and in particular
  that the quota evaluator returns nothing when its quota request fails. When the
  request for the quota of \<^verbatim>\<open>alice\<close> fails at the transport level,
  \<^verbatim>\<open>_request_data\<close> does return \<^verbatim>\<open>None\<close>, but \<^verbatim>\<open>_get_quota_by_project\<close> subscripts
  it: the evaluator raises \<^verbatim>\<open>TypeError\<close> and so does the cycle, although every other
  request succeeds.
\<close>

theorem scrape_metrics_quota_request_fails:
  "request_data gw_quota_down ''user'' (quota_args (JStr ''alice'')) = Inr JNull
   \<and> get_quota_by_project gw_quota_down (JStr ''alice'') = Inl TypeError
   \<and> get_user_quota gw_quota_down idle (JStr ''alice'') = Inl TypeError
   \<and> scrape_metrics gw_quota_down (1 / 2) idle = Inl TypeError"
  by (simp add: cycle_defs demo_defs gw_quota_down_def)

subsection \<open>The usage merger: totals\<close>

lemma key_eq_refl [simp]: "key_eq k k"
  by (simp add: key_eq_def)





lemma all_values_Nil [simp]: "all_values P []"
  by (simp add: all_values_def)


















subsection \<open>Reads during a cycle\<close>

lemma grows_refl: "grows c c"
  by (simp add: grows_def)

lemma grows_trans:
  assumes "grows a b" and "grows b c"
  shows "grows a c"
proof -
  from assms(1) obtain vs1 where p1: "\<forall>k. prefix (prometheus_metrics a k) (prometheus_metrics b k)"
    and v1: "views b = views a @ vs1"
    and w1: "\<forall>v \<in> set vs1. \<forall>k. prefix (v k) (prometheus_metrics b k)"
    unfolding grows_def by (elim exE conjE)
  from assms(2) obtain vs2 where p2: "\<forall>k. prefix (prometheus_metrics b k) (prometheus_metrics c k)"
    and v2: "views c = views b @ vs2"
    and w2: "\<forall>v \<in> set vs2. \<forall>k. prefix (v k) (prometheus_metrics c k)"
    unfolding grows_def by (elim exE conjE)
  have p: "\<forall>k. prefix (prometheus_metrics a k) (prometheus_metrics c k)"
    using p1 p2 by (meson prefix_order.trans)
  have v: "views c = views a @ (vs1 @ vs2)" using v1 v2 by simp
  have w: "\<forall>v \<in> set (vs1 @ vs2). \<forall>k. prefix (v k) (prometheus_metrics c k)"
  proof (intro ballI allI)
    fix v k
    assume "v \<in> set (vs1 @ vs2)"
    then consider "v \<in> set vs1" | "v \<in> set vs2" by auto
    then show "prefix (v k) (prometheus_metrics c k)"
    proof cases
      case 1
      with w1 have "prefix (v k) (prometheus_metrics b k)" by simp
      also from p2 have "prefix \<dots> (prometheus_metrics c k)" by simp
      finally show ?thesis .
    next
      case 2
      with w2 show ?thesis by simp
    qed
  qed
  from p v w show ?thesis unfolding grows_def by blast
qed

lemma for_each_grows:
  assumes "for_each body c xs = Inr c'"
    and "\<And>c x c'. body c x = Inr c' \<Longrightarrow> grows c c'"
  shows "grows c c'"
  using assms(1)
proof (induction xs arbitrary: c)
  case Nil
  then show ?case by (simp add: grows_refl)
next
  case (Cons x xs)
  from Cons.prems obtain c1 where c1: "body c x = Inr c1" and rest: "for_each body c1 xs = Inr c'"
    by (cases "body c x") auto
  from assms(2)[OF c1] Cons.IH[OF rest] show ?case by (rule grows_trans)
qed

lemma add_metric_prefix: "prefix (m k) (add_metric key labels v m k)"
  by (simp add: add_metric_def)

lemma add_quota_metrics_prefix: "prefix (m k) (add_quota_metrics q m k)"
  by (simp add: add_quota_metrics_def add_metric_def Let_def)

lemma add_bucket_metrics_prefix: "prefix (m k) (add_bucket_metrics b m k)"
  by (simp add: add_bucket_metrics_def add_metric_def Let_def)

lemma usage_row_metrics_prefix: "prefix (m k) (usage_row_metrics row m k)"
  by (cases row) (simp add: usage_row_metrics_def add_metric_def Let_def)

lemma fold_usage_row_metrics_prefix: "prefix (m k) (fold usage_row_metrics rows m k)"
proof (induction rows arbitrary: m)
  case Nil
  then show ?case by simp
next
  case (Cons row rows)
  have "prefix (m k) (usage_row_metrics row m k)" by (rule usage_row_metrics_prefix)
  also have "prefix \<dots> (fold usage_row_metrics rows (usage_row_metrics row m) k)"
    by (rule Cons.IH)
  finally show ?case by simp
qed

lemma grows_metrics:
  assumes "\<forall>k. prefix (prometheus_metrics c k) (prometheus_metrics c' k)"
    and "views c' = views c"
  shows "grows c c'"
  using assms by (simp add: grows_def)

lemma in_flight_grows: "grows c (in_flight c)"
  by (simp add: grows_def in_flight_def)

lemma get_bucket_usage_prefix:
  assumes "get_bucket_usage m b = Inr m'"
  shows "prefix (m k) (m' k)"
proof (cases "is_dict b")
  case False
  with assms show ?thesis by (simp add: get_bucket_usage_def)
next
  case True
  with assms obtain bl where "m' = add_bucket_metrics bl m"
    by (cases "read_bucket b") (auto simp: get_bucket_usage_def)
  then show ?thesis by (simp add: add_bucket_metrics_prefix)
qed

lemma for_each_get_bucket_usage_prefix:
  "for_each get_bucket_usage m bs = Inr m' \<Longrightarrow> prefix (m k) (m' k)"
proof (induction bs arbitrary: m)
  case Nil
  then show ?case by simp
next
  case (Cons b bs)
  from Cons.prems obtain m1 where m1: "get_bucket_usage m b = Inr m1"
    and rest: "for_each get_bucket_usage m1 bs = Inr m'"
    by (cases "get_bucket_usage m b") auto
  from get_bucket_usage_prefix[OF m1, of k] Cons.IH[OF rest] show ?case
    by (rule prefix_order.trans)
qed

lemma populate_usage_grows:
  assumes "populate_usage u c = Inr c'"
  shows "grows c c'"
proof (cases "truthy u")
  case False
  with assms show ?thesis by (simp add: populate_usage_def grows_refl)
next
  case True
  with assms obtain ud where
    "c' = c\<lparr>usage_dict := ud,
             prometheus_metrics := update_usage_metrics ud (prometheus_metrics c)\<rparr>"
    by (auto simp: populate_usage_def and_then_eq_Inr_iff)
  then show ?thesis
    by (intro grows_metrics) (simp_all add: update_usage_metrics_def fold_usage_row_metrics_prefix)
qed

lemma populate_buckets_grows:
  assumes "populate_buckets j c = Inr c'"
  shows "grows c c'"
proof (cases "truthy j")
  case False
  with assms show ?thesis by (simp add: populate_buckets_def grows_refl)
next
  case True
  with assms obtain bs m where
    m: "for_each get_bucket_usage (prometheus_metrics c) bs = Inr m"
    and c': "c' = c\<lparr>prometheus_metrics := m\<rparr>"
    by (auto simp: populate_buckets_def and_then_eq_Inr_iff)
  show ?thesis
    unfolding c' by (intro grows_metrics) (simp_all add: for_each_get_bucket_usage_prefix[OF m])
qed

lemma get_user_quota_grows:
  assumes "get_user_quota gw c p = Inr c'"
  shows "grows c c'"
proof -
  note run = assms[unfolded get_user_quota_def Let_def]
  from run obtain quota where a: "get_quota_by_project gw p = Inr quota"
    by (cases "get_quota_by_project gw p") simp_all
  from run a obtain positive where b: "py_gt0 quota = Inr positive"
    by (cases "py_gt0 quota") (simp_all del: py_gt0.simps)
  have two: "grows c (in_flight (in_flight c))"
    by (rule grows_trans[OF in_flight_grows in_flight_grows])
  show ?thesis
  proof (cases positive)
    case False
    with run a b have "c' = in_flight c" by (simp del: py_gt0.simps)
    then show ?thesis by (simp add: in_flight_grows)
  next
    case True
    with run a b obtain user where u: "get_user_info gw p = Inr user"
      by (cases "get_user_info gw p") (simp_all del: py_gt0.simps)
    show ?thesis
    proof (cases "user = JNull")
      case null: True
      with run a b True u have "c' = in_flight (in_flight c)" by (simp del: py_gt0.simps)
      with two show ?thesis by simp
    next
      case False
      with run a b True u obtain ql where r: "read_user_quota user quota = Inr ql"
        by (cases "read_user_quota user quota") (simp_all del: py_gt0.simps)
      with run a b True u False
      have c': "c' = (in_flight (in_flight c))\<lparr>prometheus_metrics :=
                    add_quota_metrics ql (prometheus_metrics (in_flight (in_flight c)))\<rparr>"
        by (simp del: py_gt0.simps)
      have "grows (in_flight (in_flight c)) c'"
        unfolding c' by (intro grows_metrics) (simp_all add: add_quota_metrics_prefix)
      with two show ?thesis by (rule grows_trans)
    qed
  qed
qed

lemma populate_quotas_grows:
  assumes "populate_quotas gw j c = Inr c'"
  shows "grows c c'"
proof (cases "truthy j")
  case False
  with assms show ?thesis by (simp add: populate_quotas_def grows_refl)
next
  case True
  with assms obtain us where "for_each (get_user_quota gw) c us = Inr c'"
    by (auto simp: populate_quotas_def and_then_eq_Inr_iff)
  then show ?thesis by (rule for_each_grows) (rule get_user_quota_grows)
qed

text \<open>
  Claim C2, as stated: a read during a poll cycle sees the complete previous snapshot
  or the complete new one. It fails. In the second of two cycles against the example
  gateway, a read that arrives while the request for the user's quota is waiting (the
  fourth request of the cycle) finds the bucket families filled and the quota families
  empty, although both the previous snapshot and the new one hold a quota sample.
\<close>

theorem collect_during_cycle_counterexample:
  "length (views_of demo_second_cycle) = 5
   \<and> (views_of demo_second_cycle ! 3) ''bucket_usage_bytes''
       = [Sample [Raw (JStr ''photos''), Raw (JStr ''alice''), Raw (JStr ''0'')] (Obj (JInt 102400))]
   \<and> (views_of demo_second_cycle ! 3) ''user_quota_utilized'' = []
   \<and> family ''user_quota_utilized'' demo_first_cycle
       = Inr [Sample [Str (JStr ''Alice''), Str (JStr ''alice'')] (PyFloat 25)]
   \<and> family ''user_quota_utilized'' demo_second_cycle
       = Inr [Sample [Str (JStr ''Alice''), Str (JStr ''alice'')] (PyFloat 25)]"
  by (simp add: demo_second_cycle_def demo_first_cycle_def views_of_def family_def
      cycle_defs demo_defs)

text \<open>
  Claim C2, amended: the cycle starts by emptying the metric families, so a read that
  arrives while one of the three top-level requests is waiting finds every family empty,
  whatever the previous snapshot held; and a read that arrives while any request of the
  cycle is waiting finds in each family an initial part of the samples the family holds
  when the cycle has finished. Only a read after the end of the cycle is sure to find
  the complete new snapshot.
\<close>

theorem scrape_metrics_views:
  assumes "scrape_metrics gw duration c = Inr c'"
  shows "take 3 (views c') = replicate 3 setup_empty_prometheus_metrics
       \<and> (\<forall>v \<in> set (views c'). \<forall>k. prefix (v k) (prometheus_metrics c' k))"
proof -
  let ?reset = "c\<lparr>prometheus_metrics := setup_empty_prometheus_metrics, usage_dict := [],
                  views := []\<rparr>"
  let ?start = "in_flight (in_flight (in_flight ?reset))"
  from assms obtain u b us c1 c2 c3 where
    c1: "populate_usage u ?start = Inr c1"
    and c2: "populate_buckets b c1 = Inr c2"
    and c3: "populate_quotas gw us c2 = Inr c3"
    and c': "c' = c3\<lparr>prometheus_metrics :=
               add_metric ''scrape_duration_seconds'' [] (PyFloat duration)
                 (prometheus_metrics c3)\<rparr>"
    by (auto simp: scrape_metrics_def and_then_eq_Inr_iff Let_def)
  have "grows ?start c3"
    by (rule grows_trans[OF populate_usage_grows[OF c1]
          grows_trans[OF populate_buckets_grows[OF c2] populate_quotas_grows[OF c3]]])
  then obtain vs where vs: "views c3 = views ?start @ vs"
    and w: "\<forall>v \<in> set vs. \<forall>k. prefix (v k) (prometheus_metrics c3 k)"
    unfolding grows_def by (elim exE conjE)
  have start: "views ?start = [setup_empty_prometheus_metrics, setup_empty_prometheus_metrics,
                               setup_empty_prometheus_metrics]"
    by (simp add: in_flight_def)
  have first: "take 3 (views c') = replicate 3 setup_empty_prometheus_metrics"
    unfolding c' by (simp add: vs start eval_nat_numeral)
  have rest: "\<forall>v \<in> set (views c'). \<forall>k. prefix (v k) (prometheus_metrics c' k)"
  proof (intro ballI allI)
    fix v k
    assume "v \<in> set (views c')"
    then consider "v = setup_empty_prometheus_metrics" | "v \<in> set vs"
      unfolding c' by (auto simp: vs start)
    then show "prefix (v k) (prometheus_metrics c' k)"
    proof cases
      case 1
      then show ?thesis by (simp add: setup_empty_prometheus_metrics_def)
    next
      case 2
      with w have "prefix (v k) (prometheus_metrics c3 k)" by simp
      also have "prefix \<dots> (prometheus_metrics c' k)"
        unfolding c' by (simp add: add_metric_prefix)
      finally show ?thesis .
    qed
  qed
  from first rest show ?thesis by simp
qed

theorem scrape_metrics_views_witness:
  "\<exists>c'. scrape_metrics (demo_gateway 1000 250) (1 / 2) idle = Inr c'
     \<and> take 3 (views c') = replicate 3 setup_empty_prometheus_metrics
     \<and> (\<forall>v \<in> set (views c'). \<forall>k. prefix (v k) (prometheus_metrics c' k))"
proof -
  from demo_cycle obtain c' where
    run: "scrape_metrics (demo_gateway 1000 250) (1 / 2) idle = Inr c'"
    by (elim exE conjE)
  from scrape_metrics_views[OF run] run show ?thesis
    by (intro exI[of _ c']) simp
qed

end
